theory Spec2Isabelle
  imports Main "HOL-Library.Log_Nat"
begin

section \<open>Python values, errors and dictionaries\<close>

text \<open>
  The program is a single script, \<^verbatim>\<open>app.py\<close>. Its values are Python ints (unbounded,
  so \<open>int\<close>), Python floats and the missing-value marker \<^verbatim>\<open>np.nan\<close>. An exception is a
  value of \<open>py_error\<close>; a computation that may raise returns \<open>py_error + 'a\<close>, with
  \<open>Inl\<close> for the exception.
\<close>

datatype py_error = KeyError | ZeroDivisionError | IndexError | External string

text \<open>
  A finite Python float is an IEEE-754 binary64 number, hence a rational; \<open>pyfloat\<close> holds
  its exact value. Every float operation is the exact operation followed by rounding to
  the nearest binary64 number, ties to even (\<open>round_double\<close>): 53 significant bits,
  least exponent \<open>-1022\<close>, below which the spacing stays \<open>2 powi (-1074)\<close>. Overflow to
  infinity is not modelled: the widgets bound every float input by \<open>200000\<close> and the
  least denominator is \<open>1e-6\<close>, so no result of the script comes near \<open>2 ^ 1024\<close>.
\<close>

type_synonym pyfloat = rat

definition round_half_even :: "rat \<Rightarrow> int" where
  "round_half_even y =
     (let f = \<lfloor>y\<rfloor>; r = y - of_int f
      in if r < 1 / 2 then f else if 1 / 2 < r then f + 1 else if even f then f else f + 1)"

text \<open>The binary exponent of a non-zero \<open>x\<close>: the \<open>e\<close> with \<open>2 powi e \<le> \<bar>x\<bar> < 2 powi (e + 1)\<close>,
  read off the bit length of \<open>\<lfloor>\<bar>x\<bar>\<rfloor>\<close>, or of \<open>\<lfloor>1 / \<bar>x\<bar>\<rfloor>\<close> below one.\<close>

definition float_exponent :: "rat \<Rightarrow> int" where
  "float_exponent x =
     (let a = \<bar>x\<bar>
      in if 1 \<le> a then bitlen \<lfloor>a\<rfloor> - 1
         else let j = bitlen \<lfloor>1 / a\<rfloor> - 1
              in if 2 powi (- j) \<le> a then - j else - j - 1)"

definition round_double :: "rat \<Rightarrow> pyfloat" where
  "round_double x =
     (if x = 0 then 0
      else let e = max (float_exponent x) (- 1022); q = 2 powi (e - 52)
           in of_int (round_half_even (x / q)) * q)"

definition float_literal :: "rat \<Rightarrow> pyfloat" where
  "float_literal r = round_double r"

definition fl_add :: "pyfloat \<Rightarrow> pyfloat \<Rightarrow> pyfloat" where
  "fl_add x y = round_double (x + y)"

definition fl_truediv :: "pyfloat \<Rightarrow> pyfloat \<Rightarrow> py_error + pyfloat" where
  "fl_truediv x y = (if y = 0 then Inl ZeroDivisionError else Inr (round_double (x / y)))"

datatype pyval = NaN | IntV int | FloatV pyfloat

text \<open>
  A Python \<^verbatim>\<open>dict\<close> keeps its keys in insertion order: an association list with
  distinct keys. \<^verbatim>\<open>d[k] = v\<close> overwrites in place or appends; \<^verbatim>\<open>d[k]\<close> raises
  \<^verbatim>\<open>KeyError\<close> on a missing key.
\<close>

type_synonym 'v pydict = "(string \<times> 'v) list"

definition dict_keys :: "'v pydict \<Rightarrow> string list" where
  "dict_keys d = map fst d"

definition dict_values :: "'v pydict \<Rightarrow> 'v list" where
  "dict_values d = map snd d"

definition dict_contains :: "'v pydict \<Rightarrow> string \<Rightarrow> bool" where
  "dict_contains d k = (k \<in> set (dict_keys d))"

fun dict_setitem :: "'v pydict \<Rightarrow> string \<Rightarrow> 'v \<Rightarrow> 'v pydict" where
  "dict_setitem [] k v = [(k, v)]"
| "dict_setitem ((k', v') # d) k v =
     (if k' = k then (k, v) # d else (k', v') # dict_setitem d k v)"

definition dict_getitem :: "'v pydict \<Rightarrow> string \<Rightarrow> py_error + 'v" where
  "dict_getitem d k = (case map_of d k of None \<Rightarrow> Inl KeyError | Some v \<Rightarrow> Inr v)"

section \<open>The form: widgets and derived fields (lines 19--55)\<close>

text \<open>
  The widget values are module-level globals; \<open>raw_inputs\<close> collects them. The three
  counts come from integer \<^verbatim>\<open>number_input\<close>s, the six measures from float ones, the
  two selections from \<^verbatim>\<open>selectbox\<close>es.
\<close>

record raw_inputs =
  beds :: int
  baths :: int
  parking :: int
  land_size :: pyfloat
  distance_to_cbd :: pyfloat
  nearest_supermarket :: pyfloat
  nearest_train :: pyfloat
  nearest_bus :: pyfloat
  nearest_park :: pyfloat
  property_type :: string
  sale_method :: string

definition property_type_options :: "string list" where
  "property_type_options =
     [''House'', ''Apartment / Unit / Flat / Studio'', ''Townhouse'', ''Villa'', ''Land'']"

definition sale_method_options :: "string list" where
  "sale_method_options =
     [''Private treaty'', ''Auction'', ''Prior auction'', ''Active (listed)'']"

text \<open>What the widgets can return: the bounds of each \<^verbatim>\<open>number_input\<close>, the options
  of each \<^verbatim>\<open>selectbox\<close>.\<close>

definition valid_inputs :: "raw_inputs \<Rightarrow> bool" where
  "valid_inputs w =
     (0 \<le> beds w \<and> beds w \<le> 12 \<and>
      0 \<le> baths w \<and> baths w \<le> 8 \<and>
      0 \<le> parking w \<and> parking w \<le> 8 \<and>
      0 \<le> land_size w \<and> land_size w \<le> 200000 \<and>
      0 \<le> distance_to_cbd w \<and> distance_to_cbd w \<le> 500 \<and>
      0 \<le> nearest_supermarket w \<and> nearest_supermarket w \<le> 200 \<and>
      0 \<le> nearest_train w \<and> nearest_train w \<le> 200 \<and>
      0 \<le> nearest_bus w \<and> nearest_bus w \<le> 200 \<and>
      0 \<le> nearest_park w \<and> nearest_park w \<le> 200 \<and>
      property_type w \<in> set property_type_options \<and>
      sale_method w \<in> set sale_method_options)"

text \<open>Line 49: \<^verbatim>\<open>int(beds + baths + parking)\<close>, on ints.\<close>

definition rooms_total :: "raw_inputs \<Rightarrow> int" where
  "rooms_total w = beds w + baths w + parking w"

text \<open>Lines 50--55. \<^verbatim>\<open>1/x\<close> raises \<^verbatim>\<open>ZeroDivisionError\<close> when \<open>x\<close> is zero; the sum
  associates to the left.\<close>

definition amenity_access_index :: "raw_inputs \<Rightarrow> py_error + pyfloat" where
  "amenity_access_index w =
     (case fl_truediv 1 (fl_add (float_literal (1 / 1000000)) (nearest_supermarket w)) of
        Inl e \<Rightarrow> Inl e
      | Inr t1 \<Rightarrow>
     (case fl_truediv 1 (fl_add (float_literal (1 / 1000000)) (nearest_train w)) of
        Inl e \<Rightarrow> Inl e
      | Inr t2 \<Rightarrow>
     (case fl_truediv 1 (fl_add (float_literal (1 / 1000000)) (nearest_bus w)) of
        Inl e \<Rightarrow> Inl e
      | Inr t3 \<Rightarrow>
     (case fl_truediv 1 (fl_add (float_literal (1 / 1000000)) (nearest_park w)) of
        Inl e \<Rightarrow> Inl e
      | Inr t4 \<Rightarrow> Inr (fl_add (fl_add (fl_add t1 t2) t3) t4)))))"

section \<open>The row builder (lines 58--108)\<close>

definition PT_COLS :: "string pydict" where
  "PT_COLS =
     [(''House'', ''property_type_house''),
      (''Apartment / Unit / Flat / Studio'', ''property_type_apartment_unit_flat_studio''),
      (''Townhouse'', ''property_type_townhouse''),
      (''Villa'', ''property_type_villa''),
      (''Land'', ''property_type_land'')]"

definition SM_COLS :: "string pydict" where
  "SM_COLS =
     [(''Private treaty'', ''sale_method_private_treaty''),
      (''Auction'', ''sale_method_auction''),
      (''Prior auction'', ''sale_method_prior_auction''),
      (''Active (listed)'', ''sale_method_active'')]"

definition put_if_present :: "'v pydict \<Rightarrow> string \<Rightarrow> 'v \<Rightarrow> 'v pydict" where
  "put_if_present d name value =
     (if dict_contains d name then dict_setitem d name value else d)"

text \<open>
  \<^verbatim>\<open>pd.DataFrame([data], columns=FEATURES)\<close> has one row, whose columns are
  \<^verbatim>\<open>FEATURES\<close> in that order; a column that is no key of \<^verbatim>\<open>data\<close> is filled with NaN.
  The row is the list of its (column, value) cells.
\<close>

definition data_frame_row :: "pyval pydict \<Rightarrow> string list \<Rightarrow> pyval pydict" where
  "data_frame_row data columns =
     map (\<lambda>c. (c, case map_of data c of None \<Rightarrow> NaN | Some v \<Rightarrow> v)) columns"

text \<open>
  \<^verbatim>\<open>build_input_row\<close> reads the globals \<^verbatim>\<open>FEATURES\<close>, the widget values and the two
  derived fields; they are its arguments here.
\<close>

definition build_input_row ::
  "string list \<Rightarrow> raw_inputs \<Rightarrow> int \<Rightarrow> pyfloat \<Rightarrow> py_error + pyval pydict" where
  "build_input_row FEATURES w rt aai =
     (let data = foldl (\<lambda>d c. dict_setitem d c NaN) [] FEATURES;
          data = put_if_present data ''beds'' (IntV (beds w));
          data = put_if_present data ''baths'' (IntV (baths w));
          data = put_if_present data ''parking'' (IntV (parking w));
          data = put_if_present data ''land_size'' (FloatV (land_size w));
          data = put_if_present data ''distance_to_cbd'' (FloatV (distance_to_cbd w));
          data = put_if_present data ''rooms_total'' (IntV rt);
          data = put_if_present data ''nearest_supermarket'' (FloatV (nearest_supermarket w));
          data = put_if_present data ''nearest_train'' (FloatV (nearest_train w));
          data = put_if_present data ''nearest_bus'' (FloatV (nearest_bus w));
          data = put_if_present data ''nearest_park'' (FloatV (nearest_park w));
          data = put_if_present data ''amenity_access_index'' (FloatV aai);
          data = foldl (\<lambda>d col. put_if_present d col (IntV 0)) data (dict_values PT_COLS)
      in case dict_getitem PT_COLS (property_type w) of
           Inl e \<Rightarrow> Inl e
         | Inr sel_pt_col \<Rightarrow>
             (let data = put_if_present data sel_pt_col (IntV 1);
                  data = foldl (\<lambda>d col. put_if_present d col (IntV 0)) data (dict_values SM_COLS)
              in case dict_getitem SM_COLS (sale_method w) of
                   Inl e \<Rightarrow> Inl e
                 | Inr sel_sm_col \<Rightarrow>
                     Inr (data_frame_row (put_if_present data sel_sm_col (IntV 1)) FEATURES)))"

text \<open>
  One run of the script up to the row: the derived fields are computed at module level
  (lines 49--55), then \<^verbatim>\<open>build_input_row()\<close> is called (line 113).
\<close>

definition build_row :: "string list \<Rightarrow> raw_inputs \<Rightarrow> py_error + pyval pydict" where
  "build_row FEATURES w =
     (case amenity_access_index w of
        Inl e \<Rightarrow> Inl e
      | Inr aai \<Rightarrow> build_input_row FEATURES w (rooms_total w) aai)"

section \<open>The predict button (lines 112--115)\<close>

text \<open>
  The predictor is external: \<open>pipe_predict\<close> takes its own state and the one-row frame,
  and returns the batch of estimates or raises, with its state after the call. The handler
  builds the row, calls the predictor once and hands the first estimate to
  \<^verbatim>\<open>st.success\<close>; \<open>Inr yhat\<close> stands for that message, whose formatting is left out.
\<close>

definition predict_clicked ::
  "('s \<Rightarrow> pyval pydict \<Rightarrow> (py_error + pyfloat list) \<times> 's) \<Rightarrow> 's \<Rightarrow>
   string list \<Rightarrow> raw_inputs \<Rightarrow> int \<Rightarrow> pyfloat \<Rightarrow> (py_error + pyfloat) \<times> 's" where
  "predict_clicked pipe_predict s FEATURES w rt aai =
     (case build_input_row FEATURES w rt aai of
        Inl e \<Rightarrow> (Inl e, s)
      | Inr X_row \<Rightarrow>
          (case pipe_predict s X_row of
             (Inl e, s') \<Rightarrow> (Inl e, s')
           | (Inr ys, s') \<Rightarrow>
               (case ys of
                  [] \<Rightarrow> (Inl IndexError, s')
                | yhat # _ \<Rightarrow> (Inr yhat, s'))))"

section \<open>Auxiliary definitions for the statements\<close>

text \<open>The cell the builder leaves in column \<open>c\<close>, the last write first.\<close>

definition row_cell :: "raw_inputs \<Rightarrow> int \<Rightarrow> pyfloat \<Rightarrow> string \<Rightarrow> string \<Rightarrow> string \<Rightarrow> pyval" where
  "row_cell w rt aai pt sm c =
     (if c = sm then IntV 1
      else if c \<in> set (dict_values SM_COLS) then IntV 0
      else if c = pt then IntV 1
      else if c \<in> set (dict_values PT_COLS) then IntV 0
      else if c = ''amenity_access_index'' then FloatV aai
      else if c = ''nearest_park'' then FloatV (nearest_park w)
      else if c = ''nearest_bus'' then FloatV (nearest_bus w)
      else if c = ''nearest_train'' then FloatV (nearest_train w)
      else if c = ''nearest_supermarket'' then FloatV (nearest_supermarket w)
      else if c = ''rooms_total'' then IntV rt
      else if c = ''distance_to_cbd'' then FloatV (distance_to_cbd w)
      else if c = ''land_size'' then FloatV (land_size w)
      else if c = ''parking'' then IntV (parking w)
      else if c = ''baths'' then IntV (baths w)
      else if c = ''beds'' then IntV (beds w)
      else NaN)"

text \<open>How many columns of a one-hot family hold the integer 1 in a row.\<close>

definition count_ones :: "string list \<Rightarrow> pyval pydict \<Rightarrow> nat" where
  "count_ones family row = length (filter (\<lambda>(c, v). c \<in> set family \<and> v = IntV 1) row)"

text \<open>The columns some rule of the builder writes.\<close>

definition populated_columns :: "string list" where
  "populated_columns =
     [''beds'', ''baths'', ''parking'', ''land_size'', ''distance_to_cbd'', ''rooms_total'',
      ''nearest_supermarket'', ''nearest_train'', ''nearest_bus'', ''nearest_park'',
      ''amenity_access_index''] @ dict_values PT_COLS @ dict_values SM_COLS"

text \<open>The formula of the specification (its section 4.1), in exact arithmetic.\<close>

definition amenity_access_index_spec :: "raw_inputs \<Rightarrow> rat" where
  "amenity_access_index_spec w =
     1 / (1 / 1000000 + nearest_supermarket w) + 1 / (1 / 1000000 + nearest_train w) +
     1 / (1 / 1000000 + nearest_bus w) + 1 / (1 / 1000000 + nearest_park w)"

text \<open>\<open>x\<close> is \<open>y\<close> up to the factor \<open>c\<close>; one rounding costs the factor
  \<open>1 / (1 - 2 powi (- 53))\<close>.\<close>

definition close_to :: "rat \<Rightarrow> rat \<Rightarrow> rat \<Rightarrow> bool" where
  "close_to c x y = (y / c \<le> x \<and> x \<le> y * c)"

definition unit_factor :: rat where
  "unit_factor = 9007199254740992 / 9007199254740991"

text \<open>The widgets' default values (lines 22--48).\<close>

definition default_inputs :: raw_inputs where
  "default_inputs =
     \<lparr>beds = 3, baths = 2, parking = 1, land_size = 400, distance_to_cbd = 10,
      nearest_supermarket = float_literal (8 / 10), nearest_train = float_literal (12 / 10),
      nearest_bus = float_literal (3 / 10), nearest_park = float_literal (5 / 10),
      property_type = ''House'', sale_method = ''Private treaty''\<rparr>"

section \<open>Dictionaries\<close>

lemma dict_keys_setitem:
  "set (dict_keys (dict_setitem d k v)) = insert k (set (dict_keys d))"
  by (induction d k v rule: dict_setitem.induct) (auto simp: dict_keys_def)

lemma dict_keys_setitem_present:
  "k \<in> set (dict_keys d) \<Longrightarrow> dict_keys (dict_setitem d k v) = dict_keys d"
  by (induction d k v rule: dict_setitem.induct) (auto simp: dict_keys_def)

lemma map_of_setitem: "map_of (dict_setitem d k v) = (map_of d)(k \<mapsto> v)"
  by (induction d k v rule: dict_setitem.induct) (auto simp: fun_eq_iff)

lemma dict_keys_put [simp]: "dict_keys (put_if_present d k v) = dict_keys d"
  by (simp add: put_if_present_def dict_contains_def dict_keys_setitem_present)

lemma map_of_put:
  "map_of (put_if_present d k v) c =
     (if c = k \<and> k \<in> set (dict_keys d) then Some v else map_of d c)"
  by (simp add: put_if_present_def dict_contains_def map_of_setitem)

lemma map_of_put_col:
  "map_of (put_if_present d k v) c =
     (if c = k \<and> c \<in> set (dict_keys d) then Some v else map_of d c)"
  by (auto simp: map_of_put)

lemma dict_keys_put_all [simp]:
  "dict_keys (foldl (\<lambda>d col. put_if_present d col v) d cols) = dict_keys d"
  by (induction cols arbitrary: d) simp_all

lemma map_of_put_all:
  "map_of (foldl (\<lambda>d col. put_if_present d col v) d cols) c =
     (if c \<in> set cols \<and> c \<in> set (dict_keys d) then Some v else map_of d c)"
  by (induction cols arbitrary: d) (auto simp: map_of_put)

lemma dict_keys_init:
  "set (dict_keys (foldl (\<lambda>d c. dict_setitem d c v) d cols)) = set (dict_keys d) \<union> set cols"
  by (induction cols arbitrary: d) (auto simp: dict_keys_setitem)

lemma map_of_init:
  "map_of (foldl (\<lambda>d c. dict_setitem d c v) d cols) c =
     (if c \<in> set cols then Some v else map_of d c)"
  by (induction cols arbitrary: d) (auto simp: map_of_setitem)

lemma getitem_in_values: "dict_getitem d k = Inr v \<Longrightarrow> v \<in> set (dict_values d)"
  by (auto simp: dict_getitem_def dict_values_def split: option.splits dest: map_of_SomeD
      intro: rev_image_eqI)

section \<open>The cells of the built row\<close>

lemma cell_lookup:
  assumes "c \<in> set S"
  shows "(case map_of
      (put_if_present
        (foldl (\<lambda>d col. put_if_present d col (IntV 0))
          (put_if_present
            (foldl (\<lambda>d col. put_if_present d col (IntV 0))
              (put_if_present
              (put_if_present
              (put_if_present
              (put_if_present
              (put_if_present
              (put_if_present
              (put_if_present
              (put_if_present
              (put_if_present
              (put_if_present
              (put_if_present (foldl (\<lambda>d c. dict_setitem d c NaN) [] S)
                ''beds'' (IntV (beds w)))
                ''baths'' (IntV (baths w)))
                ''parking'' (IntV (parking w)))
                ''land_size'' (FloatV (land_size w)))
                ''distance_to_cbd'' (FloatV (distance_to_cbd w)))
                ''rooms_total'' (IntV rt))
                ''nearest_supermarket'' (FloatV (nearest_supermarket w)))
                ''nearest_train'' (FloatV (nearest_train w)))
                ''nearest_bus'' (FloatV (nearest_bus w)))
                ''nearest_park'' (FloatV (nearest_park w)))
                ''amenity_access_index'' (FloatV aai))
              (dict_values PT_COLS))
            pt (IntV 1))
          (dict_values SM_COLS))
        sm (IntV 1)) c of None \<Rightarrow> NaN | Some v \<Rightarrow> v) = row_cell w rt aai pt sm c"
proof -
  have keys0: "set (dict_keys (foldl (\<lambda>d c. dict_setitem d c NaN) [] S)) = set S"
    using dict_keys_init[of NaN "[]" S] by (simp add: dict_keys_def)
  show ?thesis
    unfolding row_cell_def
    by (simp only: map_of_put_col map_of_put_all dict_keys_put dict_keys_put_all keys0 assms
        map_of_init simp_thms if_True if_False if_distrib[of "case_option NaN (\<lambda>v. v)"] option.case)
qed

lemma build_input_row_cells:
  assumes "dict_getitem PT_COLS (property_type w) = Inr pt"
    and "dict_getitem SM_COLS (sale_method w) = Inr sm"
  shows "build_input_row S w rt aai = Inr (map (\<lambda>c. (c, row_cell w rt aai pt sm c)) S)"
  unfolding build_input_row_def Let_def data_frame_row_def
  by (simp only: assms sum.case cell_lookup cong: map_cong)

section \<open>Floating point: evaluation, and rounding away from zero\<close>

text \<open>Rules that let the simplifier run \<open>round_double\<close> on numerals.\<close>

lemma powi_eval: "(2::rat) powi e = (if 0 \<le> e then 2 ^ nat e else 1 / 2 ^ nat (- e))"
  by (simp add: power_int_def power_inverse inverse_eq_divide power_one_over)

lemma floor_numeral_div: "\<lfloor>(numeral a :: rat) / numeral b\<rfloor> = numeral a div numeral b"
  using floor_divide_of_int_eq[of "numeral a" "numeral b", where ?'a = rat] by simp

lemmas fl_eval = round_double_def float_exponent_def round_half_even_def Let_def compute_bitlen
  powi_eval floor_numeral_div float_literal_def fl_add_def fl_truediv_def

lemma round_half_even_ge:
  assumes "of_int n \<le> y"
  shows "n \<le> round_half_even y"
proof -
  have "n \<le> \<lfloor>y\<rfloor>" using assms by (simp add: le_floor_iff)
  moreover have "\<lfloor>y\<rfloor> \<le> round_half_even y" by (simp add: round_half_even_def Let_def)
  ultimately show ?thesis by simp
qed

lemma float_exponent_le:
  assumes "0 < x"
  shows "2 powi (float_exponent x) \<le> x"
proof (cases "1 \<le> x")
  case True
  then have m: "0 < \<lfloor>x\<rfloor>" by simp
  then have l: "1 \<le> bitlen \<lfloor>x\<rfloor>" by (simp add: bitlen_alt_def)
  have "2 ^ nat (bitlen \<lfloor>x\<rfloor> - 1) \<le> \<lfloor>x\<rfloor>" using bitlen_bounds[OF m] by simp
  then have "(of_int (2 ^ nat (bitlen \<lfloor>x\<rfloor> - 1)) :: rat) \<le> of_int \<lfloor>x\<rfloor>"
    by (simp only: of_int_le_iff)
  also have "\<dots> \<le> x" by simp
  finally have "(2::rat) powi (bitlen \<lfloor>x\<rfloor> - 1) \<le> x"
    using l by (simp add: power_int_def)
  moreover have "float_exponent x = bitlen \<lfloor>x\<rfloor> - 1"
    using True assms by (simp add: float_exponent_def)
  ultimately show ?thesis by simp
next
  case False
  define m where "m = \<lfloor>1 / x\<rfloor>"
  define j where "j = bitlen m - 1"
  have "1 \<le> 1 / x" using False assms by (simp add: le_divide_eq)
  then have m: "0 < m" by (simp add: m_def)
  then have j: "0 \<le> j" by (simp add: j_def bitlen_alt_def)
  have "1 / x < of_int (\<lfloor>1 / x\<rfloor> + 1)" by (rule floor_correct[THEN conjunct2])
  then have "1 / x < of_int (m + 1)" by (simp only: m_def)
  also have "m + 1 \<le> 2 ^ nat (bitlen m)" using bitlen_bounds[OF m] by simp
  then have "(of_int (m + 1) :: rat) \<le> of_int (2 ^ nat (bitlen m))" by (simp only: of_int_le_iff)
  also have "\<dots> = 2 ^ nat (j + 1)" by (simp add: j_def)
  finally have "1 / x \<le> 2 ^ nat (j + 1)" by simp
  then have "1 / 2 ^ nat (j + 1) \<le> x" using assms by (simp add: field_simps)
  moreover have "(2::rat) powi (- j - 1) = 1 / 2 ^ nat (j + 1)"
    using j by (simp add: powi_eval)
  ultimately have low: "(2::rat) powi (- j - 1) \<le> x" by simp
  have "float_exponent x = (if 2 powi (- j) \<le> x then - j else - j - 1)"
    using False assms by (simp add: float_exponent_def m_def j_def Let_def)
  then show ?thesis using low by simp
qed

lemma round_double_pos:
  assumes "1 / 2 ^ 1074 \<le> x"
  shows "0 < round_double x"
proof -
  have x: "0 < x" using assms by (rule less_le_trans[rotated]) simp
  define e where "e = max (float_exponent x) (- 1022)"
  define q :: rat where "q = 2 powi (e - 52)"
  have q: "0 < q" by (simp add: q_def)
  have "q \<le> x"
  proof (cases "- 1022 \<le> float_exponent x")
    case True
    then have "e = float_exponent x" by (simp add: e_def)
    then have "q \<le> 2 powi (float_exponent x)"
      by (simp add: q_def power_int_increasing)
    then show ?thesis using float_exponent_le[OF x] by simp
  next
    case False
    then have "e = - 1022" by (simp add: e_def)
    then have "q = 1 / 2 ^ 1074" by (simp add: q_def power_int_def field_simps)
    then show ?thesis using assms by simp
  qed
  then have "of_int 1 \<le> x / q" using q by (simp add: le_divide_eq)
  then have "1 \<le> round_half_even (x / q)" by (rule round_half_even_ge)
  then have "0 < (of_int (round_half_even (x / q)) :: rat)" by simp
  then have "0 < of_int (round_half_even (x / q)) * q" using q by simp
  moreover have "round_double x = of_int (round_half_even (x / q)) * q"
    using x by (simp add: round_double_def Let_def e_def q_def)
  ultimately show ?thesis by simp
qed

lemma eps_value: "float_literal (1 / 1000000) = 4722366482869645 / 4722366482869645213696"
  by (simp add: fl_eval)

text \<open>Known binary64 values: \<^verbatim>\<open>0.1\<close>, \<^verbatim>\<open>1/3\<close>, and two ties, which go to the even
  neighbour.\<close>

lemma round_double_examples:
  "round_double (1 / 10) = 3602879701896397 / 36028797018963968"
  "round_double (1 / 3) = 6004799503160661 / 18014398509481984"
  "round_double 9007199254740993 = 9007199254740992"
  "round_double 9007199254740995 = 9007199254740996"
  "round_double (1 / 2) = 1 / 2"
  by (simp_all add: fl_eval)

lemma denominator_pos:
  assumes "0 \<le> d"
  shows "0 < fl_add (float_literal (1 / 1000000)) d"
proof -
  have "(1 :: rat) / 2 ^ 1074 \<le> 4722366482869645 / 4722366482869645213696" by simp
  also have "\<dots> \<le> float_literal (1 / 1000000) + d" using assms by (simp add: eps_value)
  finally show ?thesis unfolding fl_add_def by (rule round_double_pos)
qed

lemma default_index:
  "amenity_access_index default_inputs = Inr (2087601188611055 / 281474976710656)"
  by (simp add: amenity_access_index_def default_inputs_def fl_eval)

section \<open>One run of the builder\<close>

lemma index_value:
  assumes "0 \<le> nearest_supermarket w" and "0 \<le> nearest_train w"
    and "0 \<le> nearest_bus w" and "0 \<le> nearest_park w"
  shows "amenity_access_index w =
    Inr (fl_add (fl_add (fl_add
      (round_double (1 / fl_add (float_literal (1 / 1000000)) (nearest_supermarket w)))
      (round_double (1 / fl_add (float_literal (1 / 1000000)) (nearest_train w))))
      (round_double (1 / fl_add (float_literal (1 / 1000000)) (nearest_bus w))))
      (round_double (1 / fl_add (float_literal (1 / 1000000)) (nearest_park w))))"
proof -
  have "fl_add (float_literal (1 / 1000000)) (nearest_supermarket w) \<noteq> 0"
    and "fl_add (float_literal (1 / 1000000)) (nearest_train w) \<noteq> 0"
    and "fl_add (float_literal (1 / 1000000)) (nearest_bus w) \<noteq> 0"
    and "fl_add (float_literal (1 / 1000000)) (nearest_park w) \<noteq> 0"
    using assms denominator_pos by (simp_all add: less_imp_neq[THEN not_sym])
  then show ?thesis by (simp add: amenity_access_index_def fl_truediv_def)
qed

lemma valid_index:
  assumes "valid_inputs w"
  shows "\<exists>aai. amenity_access_index w = Inr aai"
proof -
  have "0 \<le> nearest_supermarket w" and "0 \<le> nearest_train w"
    and "0 \<le> nearest_bus w" and "0 \<le> nearest_park w"
    using assms by (simp_all add: valid_inputs_def)
  from index_value[OF this] show ?thesis by blast
qed

lemma valid_property_type:
  "valid_inputs w \<Longrightarrow> \<exists>pt. dict_getitem PT_COLS (property_type w) = Inr pt"
  by (auto simp: valid_inputs_def property_type_options_def dict_getitem_def PT_COLS_def)

lemma valid_sale_method:
  "valid_inputs w \<Longrightarrow> \<exists>sm. dict_getitem SM_COLS (sale_method w) = Inr sm"
  by (auto simp: valid_inputs_def sale_method_options_def dict_getitem_def SM_COLS_def)

lemma build_row_cells:
  assumes "valid_inputs w"
  shows "\<exists>aai pt sm. amenity_access_index w = Inr aai \<and>
    dict_getitem PT_COLS (property_type w) = Inr pt \<and>
    dict_getitem SM_COLS (sale_method w) = Inr sm \<and>
    build_row S w = Inr (map (\<lambda>c. (c, row_cell w (rooms_total w) aai pt sm c)) S)"
proof -
  obtain aai where a: "amenity_access_index w = Inr aai" using valid_index[OF assms] ..
  obtain pt where p: "dict_getitem PT_COLS (property_type w) = Inr pt"
    using valid_property_type[OF assms] ..
  obtain sm where s: "dict_getitem SM_COLS (sale_method w) = Inr sm"
    using valid_sale_method[OF assms] ..
  have "build_row S w = Inr (map (\<lambda>c. (c, row_cell w (rooms_total w) aai pt sm c)) S)"
    by (simp add: build_row_def a build_input_row_cells[OF p s])
  with a p s show ?thesis by blast
qed

lemma map_of_cells: "map_of (map (\<lambda>c. (c, f c)) S) c = (if c \<in> set S then Some (f c) else None)"
  by (induction S) auto

lemma dict_keys_cells: "dict_keys (map (\<lambda>c. (c, f c)) S) = S"
  by (simp add: dict_keys_def comp_def)

section \<open>Rounding error of the index\<close>

lemma round_half_even_error: "\<bar>of_int (round_half_even y) - y\<bar> \<le> 1 / 2"
proof -
  have "of_int \<lfloor>y\<rfloor> \<le> y" and "y < of_int \<lfloor>y\<rfloor> + 1" by linarith+
  then show ?thesis by (auto simp: round_half_even_def Let_def)
qed

lemma float_exponent_gt:
  assumes "0 < x"
  shows "x < 2 powi (float_exponent x + 1)"
proof (cases "1 \<le> x")
  case True
  then have m: "0 < \<lfloor>x\<rfloor>" by simp
  then have l: "1 \<le> bitlen \<lfloor>x\<rfloor>" by (simp add: bitlen_alt_def)
  have "\<lfloor>x\<rfloor> + 1 \<le> 2 ^ nat (bitlen \<lfloor>x\<rfloor>)" using bitlen_bounds[OF m] by simp
  then have "(of_int (\<lfloor>x\<rfloor> + 1) :: rat) \<le> of_int (2 ^ nat (bitlen \<lfloor>x\<rfloor>))"
    by (simp only: of_int_le_iff)
  moreover have "x < of_int (\<lfloor>x\<rfloor> + 1)" by (rule floor_correct[THEN conjunct2])
  ultimately have "x < 2 ^ nat (bitlen \<lfloor>x\<rfloor>)" by simp
  then have "x < 2 powi (bitlen \<lfloor>x\<rfloor>)" using l by (simp add: power_int_def)
  moreover have "float_exponent x = bitlen \<lfloor>x\<rfloor> - 1"
    using True assms by (simp add: float_exponent_def)
  ultimately show ?thesis by simp
next
  case False
  define m where "m = \<lfloor>1 / x\<rfloor>"
  define j where "j = bitlen m - 1"
  have "1 \<le> 1 / x" using False assms by (simp add: le_divide_eq)
  then have m: "0 < m" by (simp add: m_def)
  then have j: "0 \<le> j" by (simp add: j_def bitlen_alt_def)
  have e: "float_exponent x = (if 2 powi (- j) \<le> x then - j else - j - 1)"
    using False assms by (simp add: float_exponent_def m_def j_def Let_def)
  show ?thesis
  proof (cases "2 powi (- j) \<le> x")
    case True
    have "2 ^ nat j \<le> m" using bitlen_bounds[OF m] by (simp add: j_def)
    then have "(of_int (2 ^ nat j) :: rat) \<le> of_int m" by (simp only: of_int_le_iff)
    also have "\<dots> \<le> 1 / x" by (simp add: m_def)
    finally have "x \<le> 1 / 2 ^ nat j" using assms by (simp add: field_simps)
    also have "\<dots> = 2 powi (- j)" using j by (simp add: powi_eval)
    also have "\<dots> < 2 powi (- j + 1)" by (rule power_int_strict_increasing) simp_all
    finally show ?thesis using True e by simp
  next
    case False
    then show ?thesis using e by simp
  qed
qed

lemma round_double_error:
  assumes "1 / 2 ^ 1022 \<le> x"
  shows "\<bar>round_double x - x\<bar> \<le> x / 2 ^ 53"
proof -
  have x: "0 < x" using assms by (rule less_le_trans[rotated]) simp
  define e where "e = float_exponent x"
  define q :: rat where "q = 2 powi (e - 52)"
  have q: "0 < q" by (simp add: q_def)
  have lo: "(2::rat) powi (- 1022) \<le> x" using assms by (simp add: powi_eval)
  have hi: "x < 2 powi (e + 1)" unfolding e_def using x by (rule float_exponent_gt)
  have "- 1022 < e + 1"
  proof (rule ccontr)
    assume "\<not> - 1022 < e + 1"
    then have "e + 1 \<le> - 1022" by simp
    then have "(2::rat) powi (e + 1) \<le> 2 powi (- 1022)" by (rule power_int_increasing) simp
    with lo hi show False by simp
  qed
  then have m: "max e (- 1022) = e" by simp
  have r: "round_double x = of_int (round_half_even (x / q)) * q"
    using x m by (simp add: round_double_def Let_def e_def[symmetric] q_def)
  have "round_double x - x = (of_int (round_half_even (x / q)) - x / q) * q"
    using q by (simp add: r left_diff_distrib)
  then have "\<bar>round_double x - x\<bar> = \<bar>of_int (round_half_even (x / q)) - x / q\<bar> * \<bar>q\<bar>"
    by (simp only: abs_mult)
  also have "\<dots> = \<bar>of_int (round_half_even (x / q)) - x / q\<bar> * q"
    using q by simp
  finally have "\<bar>round_double x - x\<bar> = \<bar>of_int (round_half_even (x / q)) - x / q\<bar> * q" .
  also have "\<dots> \<le> (1 / 2) * q"
    using q by (intro mult_right_mono round_half_even_error) simp
  also have "\<dots> = 2 powi e / 2 ^ 53"
    using power_int_diff[of "2::rat" e 53] by (simp add: q_def power_int_diff)
  also have "\<dots> \<le> x / 2 ^ 53"
    using float_exponent_le[OF x] by (simp add: e_def divide_right_mono)
  finally show ?thesis .
qed

lemma close_to_round:
  assumes "1 / 2 ^ 1022 \<le> x"
  shows "close_to unit_factor (round_double x) x"
proof -
  have x: "0 < x" using assms by (rule less_le_trans[rotated]) simp
  have "\<bar>round_double x - x\<bar> \<le> x / 2 ^ 53" using assms by (rule round_double_error)
  then have A: "x - x / 2 ^ 53 \<le> round_double x" and B: "round_double x \<le> x + x / 2 ^ 53"
    by linarith+
  have C: "x / unit_factor = x - x / 2 ^ 53" by (simp add: unit_factor_def field_simps)
  have D: "x + x / 2 ^ 53 \<le> x * unit_factor"
    using x by (simp add: unit_factor_def field_simps)
  from A C have "x / unit_factor \<le> round_double x" by linarith
  moreover from B D have "round_double x \<le> x * unit_factor" by linarith
  ultimately show ?thesis unfolding close_to_def by (rule conjI)
qed

lemma close_to_trans:
  assumes "close_to c x y" and "close_to c' y z" and "0 < c"
  shows "close_to (c * c') x z"
proof -
  have a: "y / c \<le> x" "x \<le> y * c" and b: "z / c' \<le> y" "y \<le> z * c'"
    using assms by (simp_all add: close_to_def)
  have "z / c' / c \<le> y / c" using b(1) assms(3) by (intro divide_right_mono) simp_all
  then have "z / (c * c') \<le> x" using a(1) by (simp add: mult.commute)
  moreover have "y * c \<le> z * c' * c" using b(2) assms(3) by (intro mult_right_mono) simp_all
  then have "x \<le> z * (c * c')" using a(2) by (simp add: ac_simps)
  ultimately show ?thesis unfolding close_to_def by (rule conjI)
qed

lemma close_to_inverse:
  assumes "close_to c x y" and "0 < c" and "0 < y"
  shows "close_to c (1 / x) (1 / y)"
proof -
  have l: "y / c \<le> x" and u: "x \<le> y * c" using assms(1) by (simp_all add: close_to_def)
  have p: "0 < y / c" using assms by simp
  from p l have x: "0 < x" by (rule less_le_trans)
  have "0 < x * (y / c)" using x p by (rule mult_pos_pos)
  with l have "1 / x \<le> 1 / (y / c)" by (intro divide_left_mono) simp_all
  moreover have "0 < y * c" using assms by simp
  then have "0 < y * c * x" using x by (rule mult_pos_pos)
  with u have "1 / (y * c) \<le> 1 / x" by (intro divide_left_mono) simp_all
  ultimately show ?thesis by (simp add: close_to_def)
qed

lemma close_to_add:
  assumes "close_to c x y" and "close_to c x' y'"
  shows "close_to c (x + x') (y + y')"
  using assms by (simp add: close_to_def add_divide_distrib distrib_right add_mono)

lemma close_to_add_const:
  assumes "close_to c x y" and "1 \<le> c" and "0 \<le> d"
  shows "close_to c (x + d) (y + d)"
proof -
  have c: "0 < c" using assms(2) by simp
  have "d \<le> d * c" using mult_left_mono[OF assms(2,3)] by simp
  moreover from this c have "d / c \<le> d" by (simp add: divide_le_eq)
  moreover have "y / c \<le> x" "x \<le> y * c" using assms(1) by (simp_all add: close_to_def)
  ultimately have "(y + d) / c \<le> x + d" and "x + d \<le> (y + d) * c"
    by (simp_all add: add_divide_distrib distrib_right add_mono)
  then show ?thesis unfolding close_to_def by (rule conjI)
qed

lemma close_to_mono:
  assumes "close_to c x y" and "c \<le> c'" and "0 < c" and "0 \<le> y"
  shows "close_to c' x y"
proof -
  have "y / c' \<le> y / c" using assms by (intro divide_left_mono) simp_all
  moreover have "y * c \<le> y * c'" using assms by (intro mult_left_mono) simp_all
  ultimately show ?thesis using assms(1) by (simp add: close_to_def)
qed

lemma unit_factor_bounds:
  "0 < unit_factor" "1 \<le> unit_factor" "unit_factor ^ 6 \<le> 1 + 1 / 10 ^ 15"
  "1 - 1 / 10 ^ 15 \<le> 1 / unit_factor ^ 6"
  by (simp_all add: unit_factor_def power_divide)

lemma unit_factor_power:
  assumes "n \<le> 6"
  shows "0 < unit_factor ^ n" "1 \<le> unit_factor ^ n" "unit_factor ^ n \<le> 2"
proof -
  show "0 < unit_factor ^ n" using unit_factor_bounds(1) by simp
  show "1 \<le> unit_factor ^ n" using unit_factor_bounds(2) by (rule one_le_power)
  have "unit_factor ^ n \<le> unit_factor ^ 6"
    using assms unit_factor_bounds(2) by (rule power_increasing)
  also have "\<dots> \<le> 2" using unit_factor_bounds(3) by simp
  finally show "unit_factor ^ n \<le> 2" .
qed

lemma close_to_half:
  assumes "close_to (unit_factor ^ n) x y" and "n \<le> 6" and "0 \<le> y"
  shows "y / 2 \<le> x" and "x \<le> y * 2"
proof -
  have "close_to 2 x y"
    using assms(1) unit_factor_power(3)[OF assms(2)] unit_factor_power(1)[OF assms(2)] assms(3)
    by (rule close_to_mono)
  then show "y / 2 \<le> x" and "x \<le> y * 2" by (simp_all add: close_to_def)
qed

lemma close_to_power_mono:
  assumes "close_to (unit_factor ^ m) x y" and "m \<le> n" and "0 \<le> y"
  shows "close_to (unit_factor ^ n) x y"
proof -
  have "unit_factor ^ m \<le> unit_factor ^ n"
    using assms(2) unit_factor_bounds(2) by (rule power_increasing)
  moreover have "0 < unit_factor ^ m" using unit_factor_bounds(1) by simp
  ultimately show ?thesis using assms(1,3) by (intro close_to_mono[OF assms(1)])
qed

lemma close_to_round_step:
  assumes "close_to (unit_factor ^ n) x y" and "1 / 2 ^ 1022 \<le> x"
  shows "close_to (unit_factor ^ Suc n) (round_double x) y"
proof -
  have "close_to unit_factor (round_double x) x" using assms(2) by (rule close_to_round)
  from close_to_trans[OF this assms(1) unit_factor_bounds(1)] show ?thesis by simp
qed

lemma term_close:
  assumes "0 \<le> d" and "d \<le> 200"
  shows "close_to (unit_factor ^ 3)
    (round_double (1 / fl_add (float_literal (1 / 1000000)) d)) (1 / (1 / 1000000 + d))"
proof -
  let ?eps = "float_literal (1 / 1000000)"
  have "close_to (unit_factor ^ 1) ?eps (1 / 1000000)"
    by (simp add: close_to_def eps_value unit_factor_def)
  then have "close_to (unit_factor ^ 1) (?eps + d) (1 / 1000000 + d)"
    using unit_factor_power(2)[of 1] assms(1) by (intro close_to_add_const) simp_all
  moreover have "1 / 2 ^ 1022 \<le> ?eps + d"
  proof -
    have "(1 :: rat) / 2 ^ 1022 \<le> 4722366482869645 / 4722366482869645213696" by simp
    also have "\<dots> \<le> ?eps + d" using assms(1) by (simp add: eps_value)
    finally show ?thesis .
  qed
  ultimately have "close_to (unit_factor ^ Suc 1) (round_double (?eps + d)) (1 / 1000000 + d)"
    by (rule close_to_round_step)
  then have s: "close_to (unit_factor ^ 2) (fl_add ?eps d) (1 / 1000000 + d)"
    by (simp add: fl_add_def numeral_2_eq_2)
  have pos: "0 < 1 / 1000000 + d" using assms(1) by simp
  have "close_to (unit_factor ^ 2) (1 / fl_add ?eps d) (1 / (1 / 1000000 + d))"
    using s unit_factor_power(1)[of 2] pos by (intro close_to_inverse) simp_all
  moreover have "1 / 2 ^ 1022 \<le> 1 / fl_add ?eps d"
  proof -
    have p: "0 < fl_add ?eps d" using assms(1) by (rule denominator_pos)
    have "fl_add ?eps d \<le> (1 / 1000000 + d) * 2"
      using s pos by (intro close_to_half(2)[of 2]) simp_all
    also have "\<dots> \<le> 2 ^ 1022" using assms(2) by simp
    finally have "1 / 2 ^ 1022 \<le> 1 / fl_add ?eps d"
      using p by (intro divide_left_mono) simp_all
    then show ?thesis .
  qed
  ultimately have "close_to (unit_factor ^ Suc 2)
      (round_double (1 / fl_add ?eps d)) (1 / (1 / 1000000 + d))"
    by (rule close_to_round_step)
  then show ?thesis by (simp add: numeral_3_eq_3)
qed

lemma sum_close:
  assumes t: "close_to (unit_factor ^ 3) t1 e1" "close_to (unit_factor ^ 3) t2 e2"
      "close_to (unit_factor ^ 3) t3 e3" "close_to (unit_factor ^ 3) t4 e4"
    and e: "1 / 201 \<le> e1" "1 / 201 \<le> e2" "1 / 201 \<le> e3" "1 / 201 \<le> e4"
  shows "close_to (unit_factor ^ 6) (fl_add (fl_add (fl_add t1 t2) t3) t4) (e1 + e2 + e3 + e4)"
proof -
  have e0: "0 \<le> e1" "0 \<le> e2" "0 \<le> e3" "0 \<le> e4" using e by simp_all
  have p: "0 \<le> t1" "1 / 402 \<le> t2" "1 / 402 \<le> t3" "1 / 402 \<le> t4"
    using close_to_half(1)[OF t(1) _ e0(1)] close_to_half(1)[OF t(2) _ e0(2)]
      close_to_half(1)[OF t(3) _ e0(3)] close_to_half(1)[OF t(4) _ e0(4)] e
    by simp_all
  have small: "(1 :: rat) / 2 ^ 1022 \<le> 1 / 402" by simp
  have "close_to (unit_factor ^ 3) (t1 + t2) (e1 + e2)" using t(1,2) by (rule close_to_add)
  moreover have "1 / 2 ^ 1022 \<le> t1 + t2" using p small by simp
  ultimately have "close_to (unit_factor ^ Suc 3) (round_double (t1 + t2)) (e1 + e2)"
    by (rule close_to_round_step)
  then have a: "close_to (unit_factor ^ 4) (fl_add t1 t2) (e1 + e2)" by (simp add: fl_add_def)
  have pa: "0 \<le> fl_add t1 t2" using close_to_half(1)[OF a] e0 by simp
  have "close_to (unit_factor ^ 4) t3 e3" using t(3) _ e0(3) by (rule close_to_power_mono) simp
  with a have "close_to (unit_factor ^ 4) (fl_add t1 t2 + t3) (e1 + e2 + e3)"
    by (rule close_to_add)
  moreover have "1 / 2 ^ 1022 \<le> fl_add t1 t2 + t3" using p pa small by simp
  ultimately have "close_to (unit_factor ^ Suc 4) (round_double (fl_add t1 t2 + t3)) (e1 + e2 + e3)"
    by (rule close_to_round_step)
  then have b: "close_to (unit_factor ^ 5) (fl_add (fl_add t1 t2) t3) (e1 + e2 + e3)"
    by (simp add: fl_add_def)
  have pb: "0 \<le> fl_add (fl_add t1 t2) t3" using close_to_half(1)[OF b] e0 by simp
  have "close_to (unit_factor ^ 5) t4 e4" using t(4) _ e0(4) by (rule close_to_power_mono) simp
  with b have "close_to (unit_factor ^ 5) (fl_add (fl_add t1 t2) t3 + t4) (e1 + e2 + e3 + e4)"
    by (rule close_to_add)
  moreover have "1 / 2 ^ 1022 \<le> fl_add (fl_add t1 t2) t3 + t4" using p pb small by simp
  ultimately have "close_to (unit_factor ^ Suc 5)
      (round_double (fl_add (fl_add t1 t2) t3 + t4)) (e1 + e2 + e3 + e4)"
    by (rule close_to_round_step)
  then show ?thesis by (simp add: fl_add_def)
qed

lemma close_to_relative:
  assumes "close_to (unit_factor ^ 6) v e" and "0 \<le> e"
  shows "\<bar>v - e\<bar> \<le> e / 10 ^ 15"
proof -
  have l: "e / unit_factor ^ 6 \<le> v" and u: "v \<le> e * unit_factor ^ 6"
    using assms(1) by (simp_all add: close_to_def)
  have "e * (1 - 1 / 10 ^ 15) \<le> e * (1 / unit_factor ^ 6)"
    using assms(2) unit_factor_bounds(4) by (rule mult_left_mono[rotated])
  moreover have "e * (1 - 1 / 10 ^ 15) = e - e / 10 ^ 15" by (simp only: right_diff_distrib) simp
  moreover have "e * (1 / unit_factor ^ 6) = e / unit_factor ^ 6" by simp
  ultimately have "e - e / 10 ^ 15 \<le> e / unit_factor ^ 6" by (simp only:)
  with l have lo: "e - e / 10 ^ 15 \<le> v" by linarith
  have "e * unit_factor ^ 6 \<le> e * (1 + 1 / 10 ^ 15)"
    using assms(2) unit_factor_bounds(3) by (rule mult_left_mono[rotated])
  moreover have "e * (1 + 1 / 10 ^ 15) = e + e / 10 ^ 15" by (simp only: distrib_left) simp
  ultimately have "e * unit_factor ^ 6 \<le> e + e / 10 ^ 15" by (simp only:)
  with u have hi: "v \<le> e + e / 10 ^ 15" by linarith
  from lo hi show ?thesis by linarith
qed

lemma spec_term_ge:
  assumes "0 \<le> d" and "d \<le> 200"
  shows "(1 :: rat) / 201 \<le> 1 / (1 / 1000000 + d)"
  using assms by (intro divide_left_mono) simp_all

lemma index_accuracy:
  assumes "valid_inputs w"
  shows "\<exists>v. amenity_access_index w = Inr v \<and> 0 < amenity_access_index_spec w \<and>
    \<bar>v - amenity_access_index_spec w\<bar> \<le> amenity_access_index_spec w / 10 ^ 15"
proof -
  have d: "0 \<le> nearest_supermarket w" "0 \<le> nearest_train w"
    "0 \<le> nearest_bus w" "0 \<le> nearest_park w"
    and b: "nearest_supermarket w \<le> 200" "nearest_train w \<le> 200"
    "nearest_bus w \<le> 200" "nearest_park w \<le> 200"
    using assms by (simp_all add: valid_inputs_def)
  note v = index_value[OF d]
  note g = spec_term_ge[OF d(1) b(1)] spec_term_ge[OF d(2) b(2)]
    spec_term_ge[OF d(3) b(3)] spec_term_ge[OF d(4) b(4)]
  have c: "close_to (unit_factor ^ 6)
     (fl_add (fl_add (fl_add
      (round_double (1 / fl_add (float_literal (1 / 1000000)) (nearest_supermarket w)))
      (round_double (1 / fl_add (float_literal (1 / 1000000)) (nearest_train w))))
      (round_double (1 / fl_add (float_literal (1 / 1000000)) (nearest_bus w))))
      (round_double (1 / fl_add (float_literal (1 / 1000000)) (nearest_park w))))
     (amenity_access_index_spec w)"
    unfolding amenity_access_index_spec_def
    by (rule sum_close[OF term_close[OF d(1) b(1)] term_close[OF d(2) b(2)]
          term_close[OF d(3) b(3)] term_close[OF d(4) b(4)] g])
  have pos: "0 < amenity_access_index_spec w"
    unfolding amenity_access_index_spec_def using g by linarith
  then have "0 \<le> amenity_access_index_spec w" by simp
  from close_to_relative[OF c this] v pos show ?thesis by simp
qed

section \<open>The cells, column by column\<close>

lemma families_disjoint:
  "c \<in> set (dict_values PT_COLS) \<Longrightarrow> c \<notin> set (dict_values SM_COLS)"
  by (auto simp: PT_COLS_def SM_COLS_def dict_values_def)

lemma rooms_total_no_flag:
  "''rooms_total'' \<notin> set (dict_values PT_COLS)" "''rooms_total'' \<notin> set (dict_values SM_COLS)"
  by (simp_all add: PT_COLS_def SM_COLS_def dict_values_def)

lemma index_no_flag:
  "''amenity_access_index'' \<notin> set (dict_values PT_COLS)"
  "''amenity_access_index'' \<notin> set (dict_values SM_COLS)"
  by (simp_all add: PT_COLS_def SM_COLS_def dict_values_def)

lemma row_cell_pt:
  assumes "sm \<in> set (dict_values SM_COLS)" and "c \<in> set (dict_values PT_COLS)"
  shows "row_cell w rt aai pt sm c = IntV (if c = pt then 1 else 0)"
proof -
  have "c \<notin> set (dict_values SM_COLS)" using assms(2) by (rule families_disjoint)
  moreover from this assms(1) have "c \<noteq> sm" by blast
  ultimately show ?thesis using assms(2) by (simp add: row_cell_def)
qed

lemma row_cell_sm:
  assumes "c \<in> set (dict_values SM_COLS)"
  shows "row_cell w rt aai pt sm c = IntV (if c = sm then 1 else 0)"
  using assms by (simp add: row_cell_def)

lemma row_cell_unpopulated:
  assumes "pt \<in> set (dict_values PT_COLS)" and "sm \<in> set (dict_values SM_COLS)"
    and "c \<notin> set populated_columns"
  shows "row_cell w rt aai pt sm c = NaN"
proof -
  have f: "c \<notin> set (dict_values PT_COLS)" "c \<notin> set (dict_values SM_COLS)"
    using assms(3) by (simp_all add: populated_columns_def)
  with assms(1,2) have "c \<noteq> pt" "c \<noteq> sm" by blast+
  moreover have "c \<notin> {''beds'', ''baths'', ''parking'', ''land_size'', ''distance_to_cbd'',
      ''rooms_total'', ''nearest_supermarket'', ''nearest_train'', ''nearest_bus'',
      ''nearest_park'', ''amenity_access_index''}"
    using assms(3) by (simp add: populated_columns_def)
  ultimately show ?thesis using f by (simp add: row_cell_def)
qed

lemma row_cell_rooms_total:
  assumes "pt \<in> set (dict_values PT_COLS)" and "sm \<in> set (dict_values SM_COLS)"
  shows "row_cell w rt aai pt sm ''rooms_total'' = IntV rt"
proof -
  have "''rooms_total'' \<noteq> pt" "''rooms_total'' \<noteq> sm"
    using assms rooms_total_no_flag by blast+
  then show ?thesis by (simp add: row_cell_def rooms_total_no_flag)
qed

lemma row_cell_index:
  assumes "pt \<in> set (dict_values PT_COLS)" and "sm \<in> set (dict_values SM_COLS)"
  shows "row_cell w rt aai pt sm ''amenity_access_index'' = FloatV aai"
proof -
  have "''amenity_access_index'' \<noteq> pt" "''amenity_access_index'' \<noteq> sm"
    using assms index_no_flag by blast+
  then show ?thesis by (simp add: row_cell_def index_no_flag)
qed

lemma length_filter_eq: "distinct S \<Longrightarrow> length (filter (\<lambda>c. c = a) S) = (if a \<in> set S then 1 else 0)"
  by (induction S) auto

section \<open>The default form\<close>

lemma valid_default: "valid_inputs default_inputs"
  by (simp add: valid_inputs_def default_inputs_def fl_eval property_type_options_def
      sale_method_options_def)

lemma build_row_default:
  "build_row S default_inputs =
     Inr (map (\<lambda>c. (c, row_cell default_inputs 6 (2087601188611055 / 281474976710656)
       ''property_type_house'' ''sale_method_private_treaty'' c)) S)"
proof -
  have p: "dict_getitem PT_COLS (property_type default_inputs) = Inr ''property_type_house''"
    by (simp add: dict_getitem_def PT_COLS_def default_inputs_def)
  have s: "dict_getitem SM_COLS (sale_method default_inputs) = Inr ''sale_method_private_treaty''"
    by (simp add: dict_getitem_def SM_COLS_def default_inputs_def)
  have r: "rooms_total default_inputs = 6" by (simp add: rooms_total_def default_inputs_def)
  show ?thesis by (simp add: build_row_def default_index r build_input_row_cells[OF p s])
qed

section \<open>One-hot families and selections\<close>

lemma count_ones_filter:
  assumes "\<And>c. c \<in> set S \<Longrightarrow> (c \<in> set family \<and> f c = IntV 1) = (c = a)"
  shows "count_ones family (map (\<lambda>c. (c, f c)) S) = length (filter (\<lambda>c. c = a) S)"
proof -
  have "filter (\<lambda>(c, v). c \<in> set family \<and> v = IntV 1) (map (\<lambda>c. (c, f c)) S) =
        map (\<lambda>c. (c, f c)) (filter (\<lambda>c. c = a) S)"
    using assms by (simp add: filter_map comp_def cong: filter_cong)
  then show ?thesis by (simp add: count_ones_def)
qed

lemma pt_flag_iff:
  assumes "pt \<in> set (dict_values PT_COLS)" and "sm \<in> set (dict_values SM_COLS)"
  shows "(c \<in> set (dict_values PT_COLS) \<and> row_cell w rt aai pt sm c = IntV 1) = (c = pt)"
  using assms row_cell_pt[OF assms(2), of c w rt aai pt] by (auto split: if_splits)

lemma sm_flag_iff:
  assumes "sm \<in> set (dict_values SM_COLS)"
  shows "(c \<in> set (dict_values SM_COLS) \<and> row_cell w rt aai pt sm c = IntV 1) = (c = sm)"
  using assms row_cell_sm[of c w rt aai pt sm] by (auto split: if_splits)

lemma row_cell_other_pt:
  assumes "c \<noteq> pt" and "c \<noteq> pt'"
  shows "row_cell w rt aai pt sm c = row_cell w rt aai pt' sm c"
  using assms by (simp add: row_cell_def)

lemma row_cell_other_sm:
  assumes "c \<noteq> sm" and "c \<noteq> sm'"
  shows "row_cell w rt aai pt sm c = row_cell w rt aai pt sm' c"
  using assms by (simp add: row_cell_def)

lemma row_cell_fields:
  "row_cell (w\<lparr>property_type := l\<rparr>) rt aai pt sm c = row_cell w rt aai pt sm c"
  "row_cell (w\<lparr>sale_method := l\<rparr>) rt aai pt sm c = row_cell w rt aai pt sm c"
  by (simp_all add: row_cell_def)

lemma index_fields:
  "amenity_access_index (w\<lparr>property_type := l\<rparr>) = amenity_access_index w"
  "amenity_access_index (w\<lparr>sale_method := l\<rparr>) = amenity_access_index w"
  by (simp_all add: amenity_access_index_def cong: sum.case_cong)

lemma valid_fields:
  "valid_inputs w \<Longrightarrow> l \<in> set property_type_options \<Longrightarrow> valid_inputs (w\<lparr>property_type := l\<rparr>)"
  "valid_inputs w \<Longrightarrow> m \<in> set sale_method_options \<Longrightarrow> valid_inputs (w\<lparr>sale_method := m\<rparr>)"
  by (simp_all add: valid_inputs_def)

section \<open>The claims\<close>

text \<open>
  C9. \<^verbatim>\<open>put_if_present(d, name, value)\<close> never changes the keys of \<open>d\<close> nor their
  order; when \<open>name\<close> is no key, \<open>d\<close> is returned as it is; when \<open>name\<close> is a key, its
  entry becomes \<open>value\<close> and every other key keeps its value.
\<close>

theorem put_if_present_frame:
  "dict_keys (put_if_present d name value) = dict_keys d \<and>
   (name \<notin> set (dict_keys d) \<longrightarrow> put_if_present d name value = d) \<and>
   (name \<in> set (dict_keys d) \<longrightarrow>
      map_of (put_if_present d name value) name = Some value \<and>
      (\<forall>k. k \<noteq> name \<longrightarrow> map_of (put_if_present d name value) k = map_of d k))"
proof (intro conjI impI allI)
  show "dict_keys (put_if_present d name value) = dict_keys d" by simp
next
  assume "name \<notin> set (dict_keys d)"
  then show "put_if_present d name value = d"
    by (simp add: put_if_present_def dict_contains_def)
next
  assume "name \<in> set (dict_keys d)"
  then show "map_of (put_if_present d name value) name = Some value"
    by (simp add: map_of_put)
next
  fix k
  assume "k \<noteq> name"
  then show "map_of (put_if_present d name value) k = map_of d k"
    by (simp add: map_of_put)
qed

theorem put_if_present_frame_witness:
  "''b'' \<in> set (dict_keys [(''a'', 1::int), (''b'', 2)]) \<and>
   ''z'' \<notin> set (dict_keys [(''a'', 1::int), (''b'', 2)]) \<and>
   dict_keys (put_if_present [(''a'', 1::int), (''b'', 2)] ''b'' 5) = [''a'', ''b''] \<and>
   map_of (put_if_present [(''a'', 1::int), (''b'', 2)] ''b'' 5) ''b'' = Some 5 \<and>
   map_of (put_if_present [(''a'', 1::int), (''b'', 2)] ''b'' 5) ''a'' = Some 1 \<and>
   put_if_present [(''a'', 1::int), (''b'', 2)] ''z'' 5 = [(''a'', 1), (''b'', 2)]"
  using put_if_present_frame[of "[(''a'', 1::int), (''b'', 2)]" "''b''" 5]
    put_if_present_frame[of "[(''a'', 1::int), (''b'', 2)]" "''z''" 5]
  by (simp add: dict_keys_def)

text \<open>
  C1. For every schema \<open>S\<close> and all inputs the widgets can give, the builder returns a
  row, and the row's keys are exactly \<open>S\<close>, in the order of \<open>S\<close>.
\<close>

theorem build_row_keys:
  assumes "valid_inputs R"
  shows "\<exists>row. build_row S R = Inr row \<and> dict_keys row = S"
proof -
  obtain aai pt sm where
    "build_row S R = Inr (map (\<lambda>c. (c, row_cell R (rooms_total R) aai pt sm c)) S)"
    using build_row_cells[OF assms] by blast
  then show ?thesis by (simp add: dict_keys_cells)
qed

theorem build_row_keys_witness:
  "valid_inputs default_inputs \<and>
   (\<exists>row. build_row [''land_size'', ''beds'', ''suburb_median''] default_inputs = Inr row \<and>
      dict_keys row = [''land_size'', ''beds'', ''suburb_median''])"
  using build_row_keys[OF valid_default, of "[''land_size'', ''beds'', ''suburb_median'']"]
    valid_default
  by simp

text \<open>
  C3. When \<open>rooms_total\<close> is a column of the schema, its cell in the built row is the
  integer \<open>beds + baths + parking\<close>.
\<close>

theorem rooms_total_in_row:
  assumes "valid_inputs R" and "''rooms_total'' \<in> set S"
  shows "\<exists>row. build_row S R = Inr row \<and>
    map_of row ''rooms_total'' = Some (IntV (beds R + baths R + parking R))"
proof -
  obtain aai pt sm where p: "dict_getitem PT_COLS (property_type R) = Inr pt"
    and s: "dict_getitem SM_COLS (sale_method R) = Inr sm"
    and row: "build_row S R = Inr (map (\<lambda>c. (c, row_cell R (rooms_total R) aai pt sm c)) S)"
    using build_row_cells[OF assms(1)] by blast
  have "row_cell R (rooms_total R) aai pt sm ''rooms_total'' = IntV (rooms_total R)"
    using getitem_in_values[OF p] getitem_in_values[OF s] by (rule row_cell_rooms_total)
  then show ?thesis using row assms(2) by (simp add: map_of_cells rooms_total_def)
qed

theorem rooms_total_in_row_witness:
  "valid_inputs default_inputs \<and> ''rooms_total'' \<in> set [''beds'', ''rooms_total''] \<and>
   (\<exists>row. build_row [''beds'', ''rooms_total''] default_inputs = Inr row \<and>
      map_of row ''rooms_total'' = Some (IntV 6))"
  using rooms_total_in_row[OF valid_default, of "[''beds'', ''rooms_total'']"] valid_default
  by (simp add: default_inputs_def)

text \<open>
  C6. A column of the schema that no rule of the builder writes (no scalar field, no
  derived field, no column of either one-hot table) holds NaN in the built row.
\<close>

theorem unpopulated_columns_stay_missing:
  assumes "valid_inputs R" and "c \<in> set S" and "c \<notin> set populated_columns"
  shows "\<exists>row. build_row S R = Inr row \<and> map_of row c = Some NaN"
proof -
  obtain aai pt sm where p: "dict_getitem PT_COLS (property_type R) = Inr pt"
    and s: "dict_getitem SM_COLS (sale_method R) = Inr sm"
    and row: "build_row S R = Inr (map (\<lambda>c. (c, row_cell R (rooms_total R) aai pt sm c)) S)"
    using build_row_cells[OF assms(1)] by blast
  have "row_cell R (rooms_total R) aai pt sm c = NaN"
    using getitem_in_values[OF p] getitem_in_values[OF s] assms(3) by (rule row_cell_unpopulated)
  then show ?thesis using row assms(2) by (simp add: map_of_cells)
qed

theorem unpopulated_columns_stay_missing_witness:
  "valid_inputs default_inputs \<and> ''suburb_median'' \<in> set [''beds'', ''suburb_median''] \<and>
   ''suburb_median'' \<notin> set populated_columns \<and>
   (\<exists>row. build_row [''beds'', ''suburb_median''] default_inputs = Inr row \<and>
      map_of row ''suburb_median'' = Some NaN)"
proof -
  have h: "''suburb_median'' \<notin> set populated_columns"
    by (simp add: populated_columns_def PT_COLS_def SM_COLS_def dict_values_def)
  show ?thesis
    using unpopulated_columns_stay_missing[OF valid_default _ h,
        of "[''beds'', ''suburb_median'']"] valid_default h
    by simp
qed

text \<open>
  C5. When the column mapped from the selected label is not in the schema, the builder
  still returns a row; no column of that family holds 1, every column of the family that
  is in the schema holds 0, and the row is the one any other selection with an absent
  column gives. This holds for the property type and for the sale method.
\<close>

theorem absent_selection_has_no_effect:
  assumes "valid_inputs R"
  shows "\<exists>row pt sm. build_row S R = Inr row \<and>
    dict_getitem PT_COLS (property_type R) = Inr pt \<and>
    dict_getitem SM_COLS (sale_method R) = Inr sm \<and>
    (pt \<notin> set S \<longrightarrow>
       count_ones (dict_values PT_COLS) row = 0 \<and>
       (\<forall>c. c \<in> set S \<longrightarrow> c \<in> set (dict_values PT_COLS) \<longrightarrow> map_of row c = Some (IntV 0)) \<and>
       (\<forall>l pt'. l \<in> set property_type_options \<longrightarrow> dict_getitem PT_COLS l = Inr pt' \<longrightarrow>
          pt' \<notin> set S \<longrightarrow> build_row S (R\<lparr>property_type := l\<rparr>) = Inr row)) \<and>
    (sm \<notin> set S \<longrightarrow>
       count_ones (dict_values SM_COLS) row = 0 \<and>
       (\<forall>c. c \<in> set S \<longrightarrow> c \<in> set (dict_values SM_COLS) \<longrightarrow> map_of row c = Some (IntV 0)) \<and>
       (\<forall>m sm'. m \<in> set sale_method_options \<longrightarrow> dict_getitem SM_COLS m = Inr sm' \<longrightarrow>
          sm' \<notin> set S \<longrightarrow> build_row S (R\<lparr>sale_method := m\<rparr>) = Inr row))"
proof -
  obtain aai pt sm where a: "amenity_access_index R = Inr aai"
    and p: "dict_getitem PT_COLS (property_type R) = Inr pt"
    and s: "dict_getitem SM_COLS (sale_method R) = Inr sm"
    and row: "build_row S R = Inr (map (\<lambda>c. (c, row_cell R (rooms_total R) aai pt sm c)) S)"
    using build_row_cells[OF assms] by blast
  let ?row = "map (\<lambda>c. (c, row_cell R (rooms_total R) aai pt sm c)) S"
  note ptv = getitem_in_values[OF p] and smv = getitem_in_values[OF s]
  have pt_part: "count_ones (dict_values PT_COLS) ?row = 0 \<and>
       (\<forall>c. c \<in> set S \<longrightarrow> c \<in> set (dict_values PT_COLS) \<longrightarrow> map_of ?row c = Some (IntV 0)) \<and>
       (\<forall>l pt'. l \<in> set property_type_options \<longrightarrow> dict_getitem PT_COLS l = Inr pt' \<longrightarrow>
          pt' \<notin> set S \<longrightarrow> build_row S (R\<lparr>property_type := l\<rparr>) = Inr ?row)"
    if absent: "pt \<notin> set S"
  proof (intro conjI allI impI)
    have "count_ones (dict_values PT_COLS) ?row = length (filter (\<lambda>c. c = pt) S)"
      by (rule count_ones_filter) (rule pt_flag_iff[OF ptv smv])
    also have "\<dots> = 0" using absent by (auto simp: filter_empty_conv)
    finally show "count_ones (dict_values PT_COLS) ?row = 0" .
  next
    fix c assume "c \<in> set S" and c: "c \<in> set (dict_values PT_COLS)"
    then show "map_of ?row c = Some (IntV 0)"
      using absent row_cell_pt[OF smv c, of R "rooms_total R" aai pt]
      by (auto simp: map_of_cells)
  next
    fix l pt' assume l: "l \<in> set property_type_options"
      and p': "dict_getitem PT_COLS l = Inr pt'" and absent': "pt' \<notin> set S"
    have "build_row S (R\<lparr>property_type := l\<rparr>) =
        Inr (map (\<lambda>c. (c, row_cell R (rooms_total R) aai pt' sm c)) S)"
      using a p' s
      by (simp add: build_row_def index_fields rooms_total_def row_cell_fields
          build_input_row_cells[of "R\<lparr>property_type := l\<rparr>" pt' sm])
    also have "map (\<lambda>c. (c, row_cell R (rooms_total R) aai pt' sm c)) S = ?row"
      using absent absent' by (intro map_cong refl) (auto intro: row_cell_other_pt)
    finally show "build_row S (R\<lparr>property_type := l\<rparr>) = Inr ?row" .
  qed
  have sm_part: "count_ones (dict_values SM_COLS) ?row = 0 \<and>
       (\<forall>c. c \<in> set S \<longrightarrow> c \<in> set (dict_values SM_COLS) \<longrightarrow> map_of ?row c = Some (IntV 0)) \<and>
       (\<forall>m sm'. m \<in> set sale_method_options \<longrightarrow> dict_getitem SM_COLS m = Inr sm' \<longrightarrow>
          sm' \<notin> set S \<longrightarrow> build_row S (R\<lparr>sale_method := m\<rparr>) = Inr ?row)"
    if absent: "sm \<notin> set S"
  proof (intro conjI allI impI)
    have "count_ones (dict_values SM_COLS) ?row = length (filter (\<lambda>c. c = sm) S)"
      by (rule count_ones_filter) (rule sm_flag_iff[OF smv])
    also have "\<dots> = 0" using absent by (auto simp: filter_empty_conv)
    finally show "count_ones (dict_values SM_COLS) ?row = 0" .
  next
    fix c assume "c \<in> set S" and c: "c \<in> set (dict_values SM_COLS)"
    then show "map_of ?row c = Some (IntV 0)"
      using absent row_cell_sm[OF c, of R "rooms_total R" aai pt sm]
      by (auto simp: map_of_cells)
  next
    fix m sm' assume m: "m \<in> set sale_method_options"
      and s': "dict_getitem SM_COLS m = Inr sm'" and absent': "sm' \<notin> set S"
    have "build_row S (R\<lparr>sale_method := m\<rparr>) =
        Inr (map (\<lambda>c. (c, row_cell R (rooms_total R) aai pt sm' c)) S)"
      using a p s'
      by (simp add: build_row_def index_fields rooms_total_def row_cell_fields
          build_input_row_cells[of "R\<lparr>sale_method := m\<rparr>" pt sm'])
    also have "map (\<lambda>c. (c, row_cell R (rooms_total R) aai pt sm' c)) S = ?row"
      using absent absent' by (intro map_cong refl) (auto intro: row_cell_other_sm)
    finally show "build_row S (R\<lparr>sale_method := m\<rparr>) = Inr ?row" .
  qed
  from row p s pt_part sm_part show ?thesis by blast
qed

theorem absent_selection_has_no_effect_witness:
  "valid_inputs default_inputs \<and>
   dict_getitem PT_COLS (property_type default_inputs) = Inr ''property_type_house'' \<and>
   ''property_type_house'' \<notin> set [''property_type_villa'', ''beds''] \<and>
   ''Land'' \<in> set property_type_options \<and>
   dict_getitem PT_COLS ''Land'' = Inr ''property_type_land'' \<and>
   ''property_type_land'' \<notin> set [''property_type_villa'', ''beds''] \<and>
   build_row [''property_type_villa'', ''beds''] default_inputs =
     Inr [(''property_type_villa'', IntV 0), (''beds'', IntV 3)] \<and>
   count_ones (dict_values PT_COLS) [(''property_type_villa'', IntV 0), (''beds'', IntV 3)] = 0 \<and>
   build_row [''property_type_villa'', ''beds''] (default_inputs\<lparr>property_type := ''Land''\<rparr>) =
     Inr [(''property_type_villa'', IntV 0), (''beds'', IntV 3)]"
proof -
  let ?S = "[''property_type_villa'', ''beds'']"
  let ?row = "[(''property_type_villa'', IntV 0), (''beds'', IntV 3)]"
  have p: "dict_getitem PT_COLS (property_type default_inputs) = Inr ''property_type_house''"
    by (simp add: dict_getitem_def PT_COLS_def default_inputs_def)
  have l: "''Land'' \<in> set property_type_options" by (simp add: property_type_options_def)
  have p': "dict_getitem PT_COLS ''Land'' = Inr ''property_type_land''"
    by (simp add: dict_getitem_def PT_COLS_def)
  have b: "beds default_inputs = 3" by (simp add: default_inputs_def)
  have r: "build_row ?S default_inputs = Inr ?row"
    by (simp add: build_row_default row_cell_def PT_COLS_def SM_COLS_def dict_values_def b)
  obtain row pt sm where A: "build_row ?S default_inputs = Inr row"
    and B: "dict_getitem PT_COLS (property_type default_inputs) = Inr pt"
    and c: "pt \<notin> set ?S \<longrightarrow>
       count_ones (dict_values PT_COLS) row = 0 \<and>
       (\<forall>c. c \<in> set ?S \<longrightarrow> c \<in> set (dict_values PT_COLS) \<longrightarrow> map_of row c = Some (IntV 0)) \<and>
       (\<forall>l pt'. l \<in> set property_type_options \<longrightarrow> dict_getitem PT_COLS l = Inr pt' \<longrightarrow>
          pt' \<notin> set ?S \<longrightarrow> build_row ?S (default_inputs\<lparr>property_type := l\<rparr>) = Inr row)"
    using absent_selection_has_no_effect[OF valid_default, of ?S] by blast
  have "row = ?row" using A r by simp
  moreover have "pt = ''property_type_house''" using B p by simp
  ultimately have "count_ones (dict_values PT_COLS) ?row = 0"
    and "\<forall>l pt'. l \<in> set property_type_options \<longrightarrow> dict_getitem PT_COLS l = Inr pt' \<longrightarrow>
          pt' \<notin> set ?S \<longrightarrow> build_row ?S (default_inputs\<lparr>property_type := l\<rparr>) = Inr ?row"
    using c by simp_all
  then have "count_ones (dict_values PT_COLS) ?row = 0"
    and "build_row ?S (default_inputs\<lparr>property_type := ''Land''\<rparr>) = Inr ?row"
    using l p' by simp_all
  then show ?thesis using valid_default p l p' r by simp
qed

text \<open>
  C2, as the code has it. Each column of a one-hot table that is in the schema holds 1 when
  it is the column mapped from the selected label and 0 otherwise. So, in a schema of
  distinct names, one column of the family holds 1 when the selected label's column is in
  the schema, and none does when it is not.
\<close>

theorem one_hot_flags:
  assumes "valid_inputs R" and "distinct S"
  shows "\<exists>row pt sm. build_row S R = Inr row \<and>
    dict_getitem PT_COLS (property_type R) = Inr pt \<and>
    dict_getitem SM_COLS (sale_method R) = Inr sm \<and>
    (\<forall>c. c \<in> set S \<longrightarrow> c \<in> set (dict_values PT_COLS) \<longrightarrow>
       map_of row c = Some (IntV (if c = pt then 1 else 0))) \<and>
    (\<forall>c. c \<in> set S \<longrightarrow> c \<in> set (dict_values SM_COLS) \<longrightarrow>
       map_of row c = Some (IntV (if c = sm then 1 else 0))) \<and>
    count_ones (dict_values PT_COLS) row = (if pt \<in> set S then 1 else 0) \<and>
    count_ones (dict_values SM_COLS) row = (if sm \<in> set S then 1 else 0)"
proof -
  obtain aai pt sm where p: "dict_getitem PT_COLS (property_type R) = Inr pt"
    and s: "dict_getitem SM_COLS (sale_method R) = Inr sm"
    and row: "build_row S R = Inr (map (\<lambda>c. (c, row_cell R (rooms_total R) aai pt sm c)) S)"
    using build_row_cells[OF assms(1)] by blast
  let ?row = "map (\<lambda>c. (c, row_cell R (rooms_total R) aai pt sm c)) S"
  note ptv = getitem_in_values[OF p] and smv = getitem_in_values[OF s]
  have 1: "\<forall>c. c \<in> set S \<longrightarrow> c \<in> set (dict_values PT_COLS) \<longrightarrow>
       map_of ?row c = Some (IntV (if c = pt then 1 else 0))"
    using row_cell_pt[OF smv] by (simp add: map_of_cells)
  have 2: "\<forall>c. c \<in> set S \<longrightarrow> c \<in> set (dict_values SM_COLS) \<longrightarrow>
       map_of ?row c = Some (IntV (if c = sm then 1 else 0))"
    using row_cell_sm by (simp add: map_of_cells)
  have "count_ones (dict_values PT_COLS) ?row = length (filter (\<lambda>c. c = pt) S)"
    by (rule count_ones_filter) (rule pt_flag_iff[OF ptv smv])
  then have 3: "count_ones (dict_values PT_COLS) ?row = (if pt \<in> set S then 1 else 0)"
    using length_filter_eq[OF assms(2), of pt] by simp
  have "count_ones (dict_values SM_COLS) ?row = length (filter (\<lambda>c. c = sm) S)"
    by (rule count_ones_filter) (rule sm_flag_iff[OF smv])
  then have 4: "count_ones (dict_values SM_COLS) ?row = (if sm \<in> set S then 1 else 0)"
    using length_filter_eq[OF assms(2), of sm] by simp
  from row p s 1 2 3 4 show ?thesis by blast
qed

theorem one_hot_flags_witness:
  "valid_inputs default_inputs \<and>
   distinct [''property_type_house'', ''property_type_villa'', ''sale_method_auction''] \<and>
   build_row [''property_type_house'', ''property_type_villa'', ''sale_method_auction'']
     default_inputs =
     Inr [(''property_type_house'', IntV 1), (''property_type_villa'', IntV 0),
          (''sale_method_auction'', IntV 0)] \<and>
   count_ones (dict_values PT_COLS)
     [(''property_type_house'', IntV 1), (''property_type_villa'', IntV 0),
      (''sale_method_auction'', IntV 0)] = 1 \<and>
   count_ones (dict_values SM_COLS)
     [(''property_type_house'', IntV 1), (''property_type_villa'', IntV 0),
      (''sale_method_auction'', IntV 0)] = 0"
proof -
  let ?S = "[''property_type_house'', ''property_type_villa'', ''sale_method_auction'']"
  let ?row = "[(''property_type_house'', IntV 1), (''property_type_villa'', IntV 0),
      (''sale_method_auction'', IntV 0)]"
  have d: "distinct ?S" by simp
  have p: "dict_getitem PT_COLS (property_type default_inputs) = Inr ''property_type_house''"
    by (simp add: dict_getitem_def PT_COLS_def default_inputs_def)
  have s: "dict_getitem SM_COLS (sale_method default_inputs) = Inr ''sale_method_private_treaty''"
    by (simp add: dict_getitem_def SM_COLS_def default_inputs_def)
  have r: "build_row ?S default_inputs = Inr ?row"
    by (simp add: build_row_default row_cell_def PT_COLS_def SM_COLS_def dict_values_def)
  obtain row pt sm where A: "build_row ?S default_inputs = Inr row"
    and B: "dict_getitem PT_COLS (property_type default_inputs) = Inr pt"
    and C: "dict_getitem SM_COLS (sale_method default_inputs) = Inr sm"
    and D: "count_ones (dict_values PT_COLS) row = (if pt \<in> set ?S then 1 else 0)"
    and E: "count_ones (dict_values SM_COLS) row = (if sm \<in> set ?S then 1 else 0)"
    using one_hot_flags[OF valid_default d] by blast
  have "row = ?row" using A r by simp
  moreover have "pt = ''property_type_house''" using B p by simp
  moreover have "sm = ''sale_method_private_treaty''" using C s by simp
  ultimately have "count_ones (dict_values PT_COLS) ?row = 1"
    and "count_ones (dict_values SM_COLS) ?row = 0"
    using D E by simp_all
  then show ?thesis using valid_default r by simp
qed

text \<open>
  C2, as stated, fails: with the schema \<open>[property_type_villa]\<close> and the selection
  \<open>House\<close>, the only column of the family holds 0, so no column of the family holds 1.
\<close>

theorem exactly_one_flag_counterexample:
  "valid_inputs default_inputs \<and> distinct [''property_type_villa''] \<and>
   [''property_type_villa''] \<noteq> [] \<and>
   property_type default_inputs = ''House'' \<and>
   build_row [''property_type_villa''] default_inputs = Inr [(''property_type_villa'', IntV 0)] \<and>
   count_ones (dict_values PT_COLS) [(''property_type_villa'', IntV 0)] = 0"
proof -
  have "property_type default_inputs = ''House''" by (simp add: default_inputs_def)
  moreover have "build_row [''property_type_villa''] default_inputs =
      Inr [(''property_type_villa'', IntV 0)]"
    by (simp add: build_row_default row_cell_def PT_COLS_def SM_COLS_def dict_values_def)
  moreover have "count_ones (dict_values PT_COLS) [(''property_type_villa'', IntV 0)] = 0"
    by (simp add: count_ones_def)
  ultimately show ?thesis using valid_default by simp
qed

text \<open>
  C7. The end-to-end scenario: for the seven-column schema and any inputs with
  \<open>beds = 3\<close>, \<open>baths = 2\<close>, \<open>parking = 1\<close>, \<open>House\<close> and \<open>Auction\<close>, the built row is
  exactly the one the specification lists.
\<close>

theorem end_to_end_scenario:
  assumes "valid_inputs R" and "beds R = 3" and "baths R = 2" and "parking R = 1"
    and "property_type R = ''House''" and "sale_method R = ''Auction''"
  shows "build_row
    [''beds'', ''baths'', ''parking'', ''rooms_total'', ''property_type_house'',
     ''property_type_apartment_unit_flat_studio'', ''sale_method_auction''] R =
    Inr [(''beds'', IntV 3), (''baths'', IntV 2), (''parking'', IntV 1),
         (''rooms_total'', IntV 6), (''property_type_house'', IntV 1),
         (''property_type_apartment_unit_flat_studio'', IntV 0),
         (''sale_method_auction'', IntV 1)]"
proof -
  obtain aai where a: "amenity_access_index R = Inr aai" using valid_index[OF assms(1)] ..
  have p: "dict_getitem PT_COLS (property_type R) = Inr ''property_type_house''"
    by (simp add: assms(5) dict_getitem_def PT_COLS_def)
  have s: "dict_getitem SM_COLS (sale_method R) = Inr ''sale_method_auction''"
    by (simp add: assms(6) dict_getitem_def SM_COLS_def)
  show ?thesis
    by (simp add: build_row_def a build_input_row_cells[OF p s] row_cell_def rooms_total_def
        assms(2-4) PT_COLS_def SM_COLS_def dict_values_def)
qed

theorem end_to_end_scenario_witness:
  "valid_inputs (default_inputs\<lparr>sale_method := ''Auction''\<rparr>) \<and>
   beds (default_inputs\<lparr>sale_method := ''Auction''\<rparr>) = 3 \<and>
   baths (default_inputs\<lparr>sale_method := ''Auction''\<rparr>) = 2 \<and>
   parking (default_inputs\<lparr>sale_method := ''Auction''\<rparr>) = 1 \<and>
   property_type (default_inputs\<lparr>sale_method := ''Auction''\<rparr>) = ''House'' \<and>
   sale_method (default_inputs\<lparr>sale_method := ''Auction''\<rparr>) = ''Auction'' \<and>
   build_row
    [''beds'', ''baths'', ''parking'', ''rooms_total'', ''property_type_house'',
     ''property_type_apartment_unit_flat_studio'', ''sale_method_auction'']
    (default_inputs\<lparr>sale_method := ''Auction''\<rparr>) =
    Inr [(''beds'', IntV 3), (''baths'', IntV 2), (''parking'', IntV 1),
         (''rooms_total'', IntV 6), (''property_type_house'', IntV 1),
         (''property_type_apartment_unit_flat_studio'', IntV 0),
         (''sale_method_auction'', IntV 1)]"
proof -
  let ?R = "default_inputs\<lparr>sale_method := ''Auction''\<rparr>"
  have v: "valid_inputs ?R"
    using valid_default by (rule valid_fields(2)) (simp add: sale_method_options_def)
  have f: "beds ?R = 3" "baths ?R = 2" "parking ?R = 1" "property_type ?R = ''House''"
    "sale_method ?R = ''Auction''"
    by (simp_all add: default_inputs_def)
  show ?thesis using end_to_end_scenario[OF v f] v f by simp
qed

text \<open>
  C10. When the four amenity distances are not negative, each denominator
  \<^verbatim>\<open>1e-6 + d\<close> is a positive float, so no division raises \<^verbatim>\<open>ZeroDivisionError\<close> and the
  index is computed.
\<close>

theorem amenity_denominators_positive:
  assumes "0 \<le> nearest_supermarket R" and "0 \<le> nearest_train R"
    and "0 \<le> nearest_bus R" and "0 \<le> nearest_park R"
  shows "0 < fl_add (float_literal (1 / 1000000)) (nearest_supermarket R) \<and>
    0 < fl_add (float_literal (1 / 1000000)) (nearest_train R) \<and>
    0 < fl_add (float_literal (1 / 1000000)) (nearest_bus R) \<and>
    0 < fl_add (float_literal (1 / 1000000)) (nearest_park R) \<and>
    (\<exists>v. amenity_access_index R = Inr v)"
  using assms index_value[OF assms] by (simp add: denominator_pos)

theorem amenity_denominators_positive_witness:
  "0 \<le> nearest_supermarket default_inputs \<and> 0 \<le> nearest_train default_inputs \<and>
   0 \<le> nearest_bus default_inputs \<and> 0 \<le> nearest_park default_inputs \<and>
   0 < fl_add (float_literal (1 / 1000000)) (nearest_supermarket default_inputs) \<and>
   0 < fl_add (float_literal (1 / 1000000)) (nearest_train default_inputs) \<and>
   0 < fl_add (float_literal (1 / 1000000)) (nearest_bus default_inputs) \<and>
   0 < fl_add (float_literal (1 / 1000000)) (nearest_park default_inputs) \<and>
   amenity_access_index default_inputs = Inr (2087601188611055 / 281474976710656)"
proof -
  have h: "0 \<le> nearest_supermarket default_inputs" "0 \<le> nearest_train default_inputs"
    "0 \<le> nearest_bus default_inputs" "0 \<le> nearest_park default_inputs"
    using valid_default by (simp_all add: valid_inputs_def)
  show ?thesis using amenity_denominators_positive[OF h] h default_index by simp
qed

text \<open>
  C4. When \<open>amenity_access_index\<close> is a column of the schema, its cell in the built row is
  the float \<^verbatim>\<open>1/(1e-6 + d_supermarket) + 1/(1e-6 + d_train) + 1/(1e-6 + d_bus) +
  1/(1e-6 + d_park)\<close>, every operation a float operation and the sum taken from the left.
  That float differs from the exact value of the formula by at most one part in
  \<open>10 ^ 15\<close>. For the distances \<open>0.8\<close>, \<open>1.2\<close>, \<open>0.3\<close>, \<open>0.5\<close> it is within \<open>0.001\<close> of
  \<open>7.417\<close>.
\<close>

theorem amenity_access_index_in_row:
  assumes "valid_inputs R" and "''amenity_access_index'' \<in> set S"
  shows "\<exists>row t1 t2 t3 t4.
    build_row S R = Inr row \<and>
    fl_truediv 1 (fl_add (float_literal (1 / 1000000)) (nearest_supermarket R)) = Inr t1 \<and>
    fl_truediv 1 (fl_add (float_literal (1 / 1000000)) (nearest_train R)) = Inr t2 \<and>
    fl_truediv 1 (fl_add (float_literal (1 / 1000000)) (nearest_bus R)) = Inr t3 \<and>
    fl_truediv 1 (fl_add (float_literal (1 / 1000000)) (nearest_park R)) = Inr t4 \<and>
    map_of row ''amenity_access_index'' =
      Some (FloatV (fl_add (fl_add (fl_add t1 t2) t3) t4)) \<and>
    \<bar>fl_add (fl_add (fl_add t1 t2) t3) t4 - amenity_access_index_spec R\<bar>
      \<le> amenity_access_index_spec R / 10 ^ 15 \<and>
    (nearest_supermarket R = float_literal (8 / 10) \<and>
     nearest_train R = float_literal (12 / 10) \<and>
     nearest_bus R = float_literal (3 / 10) \<and>
     nearest_park R = float_literal (5 / 10) \<longrightarrow>
       \<bar>fl_add (fl_add (fl_add t1 t2) t3) t4 - 7417 / 1000\<bar> < 1 / 1000)"
proof -
  let ?eps = "float_literal (1 / 1000000)"
  let ?t1 = "round_double (1 / fl_add ?eps (nearest_supermarket R))"
  let ?t2 = "round_double (1 / fl_add ?eps (nearest_train R))"
  let ?t3 = "round_double (1 / fl_add ?eps (nearest_bus R))"
  let ?t4 = "round_double (1 / fl_add ?eps (nearest_park R))"
  let ?v = "fl_add (fl_add (fl_add ?t1 ?t2) ?t3) ?t4"
  have d: "0 \<le> nearest_supermarket R" "0 \<le> nearest_train R"
    "0 \<le> nearest_bus R" "0 \<le> nearest_park R"
    using assms(1) by (simp_all add: valid_inputs_def)
  have a: "amenity_access_index R = Inr ?v" using d by (rule index_value)
  obtain pt sm where p: "dict_getitem PT_COLS (property_type R) = Inr pt"
    and s: "dict_getitem SM_COLS (sale_method R) = Inr sm"
    using valid_property_type[OF assms(1)] valid_sale_method[OF assms(1)] by blast
  let ?row = "map (\<lambda>c. (c, row_cell R (rooms_total R) ?v pt sm c)) S"
  have row: "build_row S R = Inr ?row"
    by (simp add: build_row_def a build_input_row_cells[OF p s])
  have "row_cell R (rooms_total R) ?v pt sm ''amenity_access_index'' = FloatV ?v"
    using getitem_in_values[OF p] getitem_in_values[OF s] by (rule row_cell_index)
  then have cell: "map_of ?row ''amenity_access_index'' = Some (FloatV ?v)"
    using assms(2) by (simp add: map_of_cells)
  have t: "fl_truediv 1 (fl_add ?eps (nearest_supermarket R)) = Inr ?t1"
    "fl_truediv 1 (fl_add ?eps (nearest_train R)) = Inr ?t2"
    "fl_truediv 1 (fl_add ?eps (nearest_bus R)) = Inr ?t3"
    "fl_truediv 1 (fl_add ?eps (nearest_park R)) = Inr ?t4"
    using d denominator_pos by (simp_all add: fl_truediv_def less_imp_neq[THEN not_sym])
  have ex: "\<bar>?v - 7417 / 1000\<bar> < 1 / 1000"
    if "nearest_supermarket R = float_literal (8 / 10) \<and>
        nearest_train R = float_literal (12 / 10) \<and>
        nearest_bus R = float_literal (3 / 10) \<and>
        nearest_park R = float_literal (5 / 10)"
  proof -
    have "amenity_access_index R = amenity_access_index default_inputs"
      using that by (simp add: amenity_access_index_def default_inputs_def cong: sum.case_cong)
    then have "?v = 2087601188611055 / 281474976710656"
      using a default_index by simp
    then show ?thesis by simp
  qed
  have acc: "\<bar>?v - amenity_access_index_spec R\<bar> \<le> amenity_access_index_spec R / 10 ^ 15"
    using index_accuracy[OF assms(1)] a by auto
  from row t cell acc ex show ?thesis by blast
qed

theorem amenity_access_index_in_row_witness:
  "valid_inputs default_inputs \<and>
   ''amenity_access_index'' \<in> set [''beds'', ''amenity_access_index''] \<and>
   nearest_supermarket default_inputs = float_literal (8 / 10) \<and>
   nearest_train default_inputs = float_literal (12 / 10) \<and>
   nearest_bus default_inputs = float_literal (3 / 10) \<and>
   nearest_park default_inputs = float_literal (5 / 10) \<and>
   build_row [''beds'', ''amenity_access_index''] default_inputs =
     Inr [(''beds'', IntV 3),
          (''amenity_access_index'', FloatV (2087601188611055 / 281474976710656))] \<and>
   \<bar>(2087601188611055 / 281474976710656 :: rat) - 7417 / 1000\<bar> < 1 / 1000 \<and>
   (\<exists>row. build_row [''beds'', ''amenity_access_index''] default_inputs = Inr row \<and>
      (\<exists>v. map_of row ''amenity_access_index'' = Some (FloatV v) \<and>
           \<bar>v - 7417 / 1000\<bar> < 1 / 1000))"
proof -
  let ?S = "[''beds'', ''amenity_access_index'']"
  have m: "''amenity_access_index'' \<in> set ?S" by simp
  have n: "nearest_supermarket default_inputs = float_literal (8 / 10)"
    "nearest_train default_inputs = float_literal (12 / 10)"
    "nearest_bus default_inputs = float_literal (3 / 10)"
    "nearest_park default_inputs = float_literal (5 / 10)"
    by (simp_all add: default_inputs_def)
  have b: "beds default_inputs = 3" by (simp add: default_inputs_def)
  have r: "build_row ?S default_inputs =
     Inr [(''beds'', IntV 3),
          (''amenity_access_index'', FloatV (2087601188611055 / 281474976710656))]"
    by (simp add: build_row_default row_cell_def PT_COLS_def SM_COLS_def dict_values_def b)
  have "\<exists>row. build_row ?S default_inputs = Inr row \<and>
      (\<exists>v. map_of row ''amenity_access_index'' = Some (FloatV v) \<and>
           \<bar>v - 7417 / 1000\<bar> < 1 / 1000)"
    using amenity_access_index_in_row[OF valid_default m] n by blast
  then show ?thesis using valid_default n r by simp
qed

text \<open>
  C8. When the predictor raises, the handler ends with that same exception, after the one
  call it made: nothing is shown, the predictor is not called again, and no estimate is
  put in its place.
\<close>

theorem predictor_error_propagates:
  assumes "build_input_row S w rt aai = Inr X_row"
    and "pipe_predict s X_row = (Inl e, s')"
  shows "predict_clicked pipe_predict s S w rt aai = (Inl e, s')"
  using assms by (simp add: predict_clicked_def)

theorem predictor_error_propagates_witness:
  "build_input_row [''beds''] default_inputs 6 0 = Inr [(''beds'', IntV 3)] \<and>
   (\<lambda>n X. if ''land_size'' \<in> set (dict_keys X) then (Inr [500000], Suc n)
           else (Inl (External ''columns are missing: land_size''), Suc n))
     (0::nat) [(''beds'', IntV 3)] =
     (Inl (External ''columns are missing: land_size''), Suc 0) \<and>
   predict_clicked
     (\<lambda>n X. if ''land_size'' \<in> set (dict_keys X) then (Inr [500000], Suc n)
           else (Inl (External ''columns are missing: land_size''), Suc n))
     (0::nat) [''beds''] default_inputs 6 0 =
     (Inl (External ''columns are missing: land_size''), Suc 0)"
proof -
  let ?pipe = "\<lambda>(n::nat) X. if ''land_size'' \<in> set (dict_keys X) then (Inr [500000::rat], Suc n)
           else (Inl (External ''columns are missing: land_size''), Suc n)"
  have p: "dict_getitem PT_COLS (property_type default_inputs) = Inr ''property_type_house''"
    by (simp add: dict_getitem_def PT_COLS_def default_inputs_def)
  have s: "dict_getitem SM_COLS (sale_method default_inputs) = Inr ''sale_method_private_treaty''"
    by (simp add: dict_getitem_def SM_COLS_def default_inputs_def)
  have b: "beds default_inputs = 3" by (simp add: default_inputs_def)
  have r: "build_input_row [''beds''] default_inputs 6 0 = Inr [(''beds'', IntV 3)]"
    by (simp add: build_input_row_cells[OF p s] row_cell_def PT_COLS_def SM_COLS_def
        dict_values_def b)
  have c: "?pipe 0 [(''beds'', IntV 3)] =
      (Inl (External ''columns are missing: land_size''), Suc 0)"
    by (simp add: dict_keys_def)
  show ?thesis
    using predictor_error_propagates[of "[''beds'']" default_inputs 6 0 _ ?pipe 0, OF r c] r c
    by (simp add: dict_keys_def)
qed

end
